theory Spec2Isabelle
  imports
    Complex_Main
    "HOL-Library.Char_ord"
    "HOL-Library.List_Lexorder"
    "HOL-Library.Product_Lexorder"
    "HOL-Library.Multiset"
    "HOL-Library.Sublist"
begin

section \<open>Data model\<close>

text \<open>
  A point of a stroke, \<^verbatim>\<open>{ x, y, t }\<close> in the client's \<^verbatim>\<open>Point\<close> type. JavaScript numbers
  are read as reals; the log never computes with them.
\<close>

record point =
  px :: real
  py :: real
  pt :: real

datatype op_type = Stroke | Shape

datatype stroke_mode = Draw | Erase

text \<open>
  One drawing operation. The same object shape travels on the wire, sits in the server's
  \<^verbatim>\<open>ops\<close> array and in the client's \<^verbatim>\<open>strokes\<close> array; what differs is whether the two
  time stamps are present. The record is therefore parametrised by the type of the time
  stamps: \<^typ>\<open>int\<close> for an operation stored by \<^verbatim>\<open>appendOp\<close> (both are always numbers there),
  \<^typ>\<open>int option\<close> for an object received from a client or read from a saved file, where
  \<^verbatim>\<open>undefined\<close> is \<^term>\<open>None\<close>. The field \<^verbatim>\<open>id\<close> is called \<open>id'\<close>, \<^verbatim>\<open>type\<close> is \<open>optype\<close>.
  \<^verbatim>\<open>isDeleted\<close> is only ever tested for truthiness, so an absent flag is \<^term>\<open>False\<close>.
  The geometry of a shape (\<^verbatim>\<open>x, y, w, h, cx, cy, r, text, url\<close>) is copied verbatim by the
  spread \<^verbatim>\<open>...op\<close> and never read by the log; it is not part of the record, and an
  operation without a \<^verbatim>\<open>points\<close> field has the empty sequence.
\<close>

record 'ts gen_op =
  id' :: string
  userId :: string
  optype :: op_type
  mode :: stroke_mode
  color :: string
  width :: real
  points :: "point list"
  isDeleted :: bool
  timestamp :: 'ts
  serverTimestamp :: 'ts

type_synonym op = "int gen_op"
type_synonym wire_op = "int option gen_op"

text \<open>The state made by \<^verbatim>\<open>createDrawingState\<close>: the array \<^verbatim>\<open>ops\<close> and the \<^verbatim>\<open>redoStack\<close>.\<close>

record drawing_state =
  ops :: "op list"
  redoStack :: "string list"

section \<open>The comparator and the sort\<close>

text \<open>
  \<^verbatim>\<open>a.localeCompare(b)\<close> is a function of the JavaScript platform, not of this repository:
  it compares two strings in the collation order of the locale the program runs in.
  The language standard requires it to be a consistent comparison function on all
  strings, that is, to order them as some key of theirs is ordered, and leaves the key
  to the platform; distinct strings may have the same key. The key is therefore a
  parameter of the model, \<open>ck\<close>, of every function that sorts. The standard fixes
  only the sign of the result, which is all a sort reads; the model returns \<open>- 1\<close>,
  \<open>0\<close> or \<open>1\<close>.
\<close>

definition localeCompare :: "(string \<Rightarrow> 'k::linorder) \<Rightarrow> string \<Rightarrow> string \<Rightarrow> int" where
  "localeCompare ck a b = (if ck a < ck b then - 1 else if ck a = ck b then 0 else 1)"

text \<open>The comparison function passed to \<^verbatim>\<open>ops.sort\<close> in \<^verbatim>\<open>appendOp\<close>.\<close>

definition compareOps :: "(string \<Rightarrow> 'k::linorder) \<Rightarrow> op \<Rightarrow> op \<Rightarrow> int" where
  "compareOps ck a b =
     (if timestamp a \<noteq> timestamp b then timestamp a - timestamp b
      else if serverTimestamp a \<noteq> serverTimestamp b then serverTimestamp a - serverTimestamp b
      else localeCompare ck (userId a) (userId b))"

text \<open>
  \<^verbatim>\<open>Array.prototype.sort\<close> with a comparison function is a stable sort: elements that
  compare equal keep their order in the array. It is modelled as the stable insertion
  sort, which for a comparison function that is a consistent ordering gives the same
  array as any other stable sort.
\<close>

fun insertBy :: "('a \<Rightarrow> 'a \<Rightarrow> int) \<Rightarrow> 'a \<Rightarrow> 'a list \<Rightarrow> 'a list" where
  "insertBy cmp a [] = [a]"
| "insertBy cmp a (b # bs) = (if cmp a b \<le> 0 then a # b # bs else b # insertBy cmp a bs)"

definition sortBy :: "('a \<Rightarrow> 'a \<Rightarrow> int) \<Rightarrow> 'a list \<Rightarrow> 'a list" where
  "sortBy cmp xs = foldr (insertBy cmp) xs []"

section \<open>The operation log of a room\<close>


definition orElse :: "int option \<Rightarrow> int \<Rightarrow> int" where
  "orElse v d = (case v of None \<Rightarrow> d | Some n \<Rightarrow> if n = 0 then d else n)"

definition createDrawingState :: drawing_state where
  "createDrawingState = \<lparr>ops = [], redoStack = []\<rparr>"

text \<open>
  The object literal \<^verbatim>\<open>strokeWithTimestamp\<close> of \<^verbatim>\<open>appendOp\<close>. It reads the clock twice:
  \<open>now1\<close> is the reading stored as \<^verbatim>\<open>serverTimestamp\<close>, \<open>now2\<close> the one used when
  \<^verbatim>\<open>op.timestamp\<close> is falsy (absent or zero).
\<close>

definition strokeWithTimestamp :: "int \<Rightarrow> int \<Rightarrow> wire_op \<Rightarrow> op" where
  "strokeWithTimestamp now1 now2 w =
     \<lparr>id' = id' w, userId = userId w, optype = optype w, mode = mode w, color = color w,
      width = width w, points = points w,
      isDeleted = False,
      timestamp = orElse (timestamp w) now2,
      serverTimestamp = now1\<rparr>"

definition appendOp ::
  "(string \<Rightarrow> 'k::linorder) \<Rightarrow> int \<Rightarrow> int \<Rightarrow> wire_op \<Rightarrow> drawing_state \<Rightarrow> drawing_state" where
  "appendOp ck now1 now2 w st =
     \<lparr>ops = sortBy (compareOps ck) (ops st @ [strokeWithTimestamp now1 now2 w]), redoStack = []\<rparr>"

text \<open>
  \<^verbatim>\<open>const s = xs.find(p); if (s) s.field = v\<close>: the first element that satisfies the
  predicate is updated in place, nothing happens when there is none.
\<close>

fun updateFirst :: "('a \<Rightarrow> bool) \<Rightarrow> ('a \<Rightarrow> 'a) \<Rightarrow> 'a list \<Rightarrow> 'a list" where
  "updateFirst p f [] = []"
| "updateFirst p f (a # as) = (if p a then f a # as else a # updateFirst p f as)"

definition patchPoints :: "string \<Rightarrow> point list \<Rightarrow> drawing_state \<Rightarrow> drawing_state" where
  "patchPoints i pts st =
     st\<lparr>ops := updateFirst (\<lambda>a. id' a = i) (\<lambda>a. a\<lparr>points := pts\<rparr>) (ops st)\<rparr>"

text \<open>
  The loop of \<^verbatim>\<open>globalUndo\<close>, \<^verbatim>\<open>for (let i = ops.length - 1; i >= 0; i--)\<close>:
  \<open>undoLoop n os\<close> looks at the indices \<open>n - 1\<close> down to \<open>0\<close> and returns the first
  one whose operation is not deleted.
\<close>

fun undoLoop :: "nat \<Rightarrow> op list \<Rightarrow> nat option" where
  "undoLoop 0 os = None"
| "undoLoop (Suc i) os = (if \<not> isDeleted (os ! i) then Some i else undoLoop i os)"

definition globalUndo :: "drawing_state \<Rightarrow> drawing_state" where
  "globalUndo st =
     (case undoLoop (length (ops st)) (ops st) of
        None \<Rightarrow> st
      | Some i \<Rightarrow>
          \<lparr>ops = (ops st)[i := (ops st ! i)\<lparr>isDeleted := True\<rparr>],
           redoStack = redoStack st @ [id' (ops st ! i)]\<rparr>)"

text \<open>
  \<^verbatim>\<open>globalRedo\<close>: \<^verbatim>\<open>redoStack.pop()\<close> gives \<^verbatim>\<open>undefined\<close> on the empty stack; \<^verbatim>\<open>if (!id) return\<close>
  also returns on the empty string, after the pop.
\<close>

definition globalRedo :: "drawing_state \<Rightarrow> drawing_state" where
  "globalRedo st =
     (if redoStack st = [] then st
      else let i = last (redoStack st); st1 = st\<lparr>redoStack := butlast (redoStack st)\<rparr>
           in if i = [] then st1
              else st1\<lparr>ops := updateFirst (\<lambda>a. id' a = i) (\<lambda>a. a\<lparr>isDeleted := False\<rparr>) (ops st)\<rparr>)"

definition clear :: "drawing_state \<Rightarrow> drawing_state" where
  "clear st = \<lparr>ops = [], redoStack = []\<rparr>"

text \<open>
  The body of the handler of \<^verbatim>\<open>POST /api/rooms/:room/load\<close> once the file is read:
  \<^verbatim>\<open>r.state.clear(); for (const op of data.ops) r.state.appendOp(op)\<close>. Each record comes
  with the two clock readings of its \<^verbatim>\<open>appendOp\<close>.
\<close>

definition loadOps ::
  "(string \<Rightarrow> 'k::linorder) \<Rightarrow> (int \<times> int \<times> wire_op) list \<Rightarrow> drawing_state \<Rightarrow> drawing_state" where
  "loadOps ck recs st = fold (\<lambda>(now1, now2, w). appendOp ck now1 now2 w) recs (clear st)"

text \<open>
  The states of a room's log on a platform with the collation key \<open>ck\<close>: whatever the
  handlers can make of a fresh one.
\<close>

inductive reachable :: "(string \<Rightarrow> 'k::linorder) \<Rightarrow> drawing_state \<Rightarrow> bool"
  for ck :: "string \<Rightarrow> 'k::linorder" where
  r_init: "reachable ck createDrawingState"
| r_append: "reachable ck st \<Longrightarrow> reachable ck (appendOp ck now1 now2 w st)"
| r_patch: "reachable ck st \<Longrightarrow> reachable ck (patchPoints i pts st)"
| r_undo: "reachable ck st \<Longrightarrow> reachable ck (globalUndo st)"
| r_redo: "reachable ck st \<Longrightarrow> reachable ck (globalRedo st)"
| r_clear: "reachable ck st \<Longrightarrow> reachable ck (clear st)"

text \<open>The key the comparator orders by.\<close>

definition opKey :: "(string \<Rightarrow> 'k::linorder) \<Rightarrow> op \<Rightarrow> int \<times> int \<times> 'k" where
  "opKey ck a = (timestamp a, serverTimestamp a, ck (userId a))"

section \<open>The client's view of the log\<close>

text \<open>
  The comparison function of the canvas controller (\<^verbatim>\<open>sorter\<close> in \<^verbatim>\<open>onInitialState\<close> and
  \<^verbatim>\<open>onWholeStateReplaced\<close>, written out again in \<^verbatim>\<open>redrawAll\<close>, \<^verbatim>\<open>onStrokeAppended\<close> and
  \<^verbatim>\<open>endStroke\<close>).
\<close>

definition sorter :: "(string \<Rightarrow> 'k::linorder) \<Rightarrow> wire_op \<Rightarrow> wire_op \<Rightarrow> int" where
  "sorter ck a b =
     (let aTime = orElse (timestamp a) 0; bTime = orElse (timestamp b) 0 in
      if aTime \<noteq> bTime then aTime - bTime
      else let aServerTime = orElse (serverTimestamp a) aTime;
               bServerTime = orElse (serverTimestamp b) bTime in
           if aServerTime \<noteq> bServerTime then aServerTime - bServerTime
           else localeCompare ck (userId a) (userId b))"

text \<open>What \<^verbatim>\<open>socket.emit\<close> serialises of a stored operation: every field, both stamps present.\<close>

definition toWire :: "op \<Rightarrow> wire_op" where
  "toWire a =
     \<lparr>id' = id' a, userId = userId a, optype = optype a, mode = mode a, color = color a,
      width = width a, points = points a, isDeleted = isDeleted a,
      timestamp = Some (timestamp a), serverTimestamp = Some (serverTimestamp a)\<rparr>"

text \<open>
  The part of the canvas controller's closure that the network handlers read and write.
  \<open>myUserId\<close> is the value of \<^verbatim>\<open>network.userId()\<close>; a canvas size is the pair of the
  width and the height. States are values: the model does
  not follow the sharing of one stroke object between \<^verbatim>\<open>activeStroke\<close> and the array
  \<^verbatim>\<open>strokes\<close>, which the handlers can create for a stroke that is not locally committed.
\<close>

record client_state =
  strokes :: "wire_op list"
  shapes :: "wire_op list"
  activeStroke :: "wire_op option"
  isPointerDown :: bool
  needsRedraw :: bool
  locallyCommittedStrokes :: "string set"
  committedStrokeCoordinates :: "string \<rightharpoonup> point list"
  committedStrokeCanvasSize :: "string \<rightharpoonup> real \<times> real"
  committedStrokeNormalizedCoordinates :: "string \<rightharpoonup> point list"
  myUserId :: string

text \<open>
  \<^verbatim>\<open>Math.abs(p.x - q.x) > 0.01 || Math.abs(p.y - q.y) > 0.01\<close>, the test by which
  \<^verbatim>\<open>redrawAll\<close> and \<^verbatim>\<open>drawStroke\<close> decide that a stroke's points were modified.
\<close>

definition mismatched :: "point \<Rightarrow> point \<Rightarrow> bool" where
  "mismatched p q \<longleftrightarrow> \<bar>px p - px q\<bar> > 1 / 100 \<or> \<bar>py p - py q\<bar> > 1 / 100"

text \<open>
  \<^verbatim>\<open>Number(v.toFixed(4))\<close>: the multiple of a ten-thousandth nearest to \<open>v\<close>, the larger
  one of two that are equally near.
\<close>

definition toFixed4 :: "real \<Rightarrow> real" where
  "toFixed4 v = real_of_int (round (v * 10000)) / 10000"

text \<open>
  \<^verbatim>\<open>drawStroke\<close>, as far as it changes the state; what it paints leaves no trace there.
  \<open>currentRect\<close> is the size \<^verbatim>\<open>canvas.getBoundingClientRect()\<close> reports when the stroke
  is drawn. For a locally committed stroke whose stored size differs from it by more
  than one pixel in all, the stored coordinates are computed again from the normalised
  ones and stored with the new size; then the stroke's points are replaced by the stored
  coordinates when it has no first point or its first point is off by more than a
  hundredth. The result is the stroke object and the state after the call.
\<close>

definition drawStroke :: "real \<times> real \<Rightarrow> wire_op \<Rightarrow> client_state \<Rightarrow> wire_op \<times> client_state" where
  "drawStroke currentRect s st =
     (if isDeleted s then (s, st)
      else if id' s \<in> locallyCommittedStrokes st then
        (let recomputed =
               (case committedStrokeCoordinates st (id' s) of
                  None \<Rightarrow> None
                | Some storedPoints \<Rightarrow>
                    (case committedStrokeCanvasSize st (id' s) of
                       None \<Rightarrow> None
                     | Some storedSize \<Rightarrow>
                         (case committedStrokeNormalizedCoordinates st (id' s) of
                            None \<Rightarrow> None
                          | Some normalizedPoints \<Rightarrow>
                              if \<bar>fst currentRect - fst storedSize\<bar>
                                   + \<bar>snd currentRect - snd storedSize\<bar> > 1
                                 \<and> fst currentRect > 0 \<and> snd currentRect > 0
                              then Some (map (\<lambda>p. \<lparr>px = toFixed4 (px p * fst currentRect),
                                                     py = toFixed4 (py p * snd currentRect),
                                                     pt = pt p\<rparr>) normalizedPoints)
                              else None)));
             st1 =
               (case recomputed of
                  None \<Rightarrow> st
                | Some storedPoints \<Rightarrow>
                    st\<lparr>committedStrokeCoordinates :=
                         (committedStrokeCoordinates st)(id' s \<mapsto> storedPoints),
                       committedStrokeCanvasSize :=
                         (committedStrokeCanvasSize st)(id' s \<mapsto> currentRect)\<rparr>)
         in (case committedStrokeCoordinates st1 (id' s) of
               None \<Rightarrow> (s, st1)
             | Some storedPoints \<Rightarrow>
                 (case storedPoints of
                    [] \<Rightarrow> (s, st1)
                  | firstStoredPoint # _ \<Rightarrow>
                      (case points s of
                         [] \<Rightarrow> (s\<lparr>points := storedPoints\<rparr>, st1)
                       | firstStrokePoint # _ \<Rightarrow>
                           if mismatched firstStrokePoint firstStoredPoint
                           then (s\<lparr>points := storedPoints\<rparr>, st1) else (s, st1)))))
      else (s, st))"

text \<open>
  The body of the loop of \<^verbatim>\<open>redrawAll\<close> for one object \<open>s\<close> of the list it draws: a stroke
  that is not deleted is first set right against the stored coordinates, if it is
  locally committed and its first point is off, and then drawn; a shape is drawn by
  \<^verbatim>\<open>drawShape\<close>, which changes nothing.
\<close>

definition redrawOne :: "real \<times> real \<Rightarrow> wire_op \<Rightarrow> client_state \<Rightarrow> wire_op \<times> client_state" where
  "redrawOne currentRect s st =
     (if optype s = Stroke then
        (if \<not> isDeleted s then
           drawStroke currentRect
             (if id' s \<in> locallyCommittedStrokes st then
                (case committedStrokeCoordinates st (id' s) of
                   None \<Rightarrow> s
                 | Some stored \<Rightarrow>
                     (case stored of
                        [] \<Rightarrow> s
                      | storedFirst # _ \<Rightarrow>
                          (case points s of
                             [] \<Rightarrow> s
                           | strokeFirst # _ \<Rightarrow>
                               if mismatched strokeFirst storedFirst
                               then s\<lparr>points := stored\<rparr> else s)))
              else s)
             st
         else (s, st))
      else (s, st))"

text \<open>
  The loop itself. The objects are taken with the position they have in the
  concatenation of the two arrays, so that each can be put back in its place.
\<close>

fun redrawOps ::
  "real \<times> real \<Rightarrow> (nat \<times> wire_op) list \<Rightarrow> client_state \<Rightarrow> (nat \<times> wire_op) list \<times> client_state" where
  "redrawOps currentRect [] st = ([], st)"
| "redrawOps currentRect ((k, s) # rest) st =
     (case redrawOne currentRect s st of
        (s1, st1) \<Rightarrow>
          (case redrawOps currentRect rest st1 of
             (rest1, st2) \<Rightarrow> ((k, s1) # rest1, st2)))"

text \<open>
  \<^verbatim>\<open>redrawAll\<close>: the objects of \<^verbatim>\<open>[...strokes, ...shapes]\<close> are sorted with the client's
  comparison function and drawn in that order. The loop changes the objects in place,
  so afterwards the two arrays hold the changed objects at the positions they had.
\<close>

definition redrawAll ::
  "(string \<Rightarrow> 'k::linorder) \<Rightarrow> real \<times> real \<Rightarrow> client_state \<Rightarrow> client_state" where
  "redrawAll ck currentRect st =
     (let sortedOps =
            sortBy (\<lambda>(i, a) (j, b). sorter ck a b) (enumerate 0 (strokes st @ shapes st))
      in case redrawOps currentRect sortedOps st of
           (drawn, st1) \<Rightarrow>
             (let objects = map snd (sort_key fst drawn)
              in st1\<lparr>strokes := take (length (strokes st)) objects,
                     shapes := drop (length (strokes st)) objects,
                     needsRedraw := False\<rparr>))"

text \<open>
  The handler of \<^verbatim>\<open>stroke:append\<close>; \<open>currentRect\<close> is the size of the canvas when the
  event arrives.
\<close>

definition isActive :: "client_state \<Rightarrow> string \<Rightarrow> bool" where
  "isActive st i = (case activeStroke st of None \<Rightarrow> False | Some a \<Rightarrow> id' a = i)"



text \<open>
  The handler of \<^verbatim>\<open>state:replace\<close>, the snapshot the server sends after undo, redo, clear
  and load.
\<close>

definition restoreCoordinates :: "client_state \<Rightarrow> wire_op \<Rightarrow> wire_op" where
  "restoreCoordinates st s =
     (if id' s \<in> locallyCommittedStrokes st then
        (case committedStrokeCoordinates st (id' s) of
           None \<Rightarrow> s
         | Some storedCoords \<Rightarrow> s\<lparr>points := storedCoords\<rparr>)
      else s)"

definition onWholeStateReplaced ::
  "(string \<Rightarrow> 'k::linorder) \<Rightarrow> real \<times> real \<Rightarrow> wire_op list \<Rightarrow> client_state \<Rightarrow> client_state" where
  "onWholeStateReplaced ck currentRect list st =
     (let newStrokes = filter (\<lambda>a. optype a = Stroke) list;
          newShapes = filter (\<lambda>a. optype a = Shape) list;
          ourCommittedStrokes =
            map (restoreCoordinates st)
              (filter (\<lambda>s. id' s \<in> locallyCommittedStrokes st
                           \<or> (userId s = myUserId st \<and> \<not> isActive st (id' s)))
                 (strokes st));
          others =
            filter (\<lambda>s. id' s \<notin> locallyCommittedStrokes st \<and> userId s \<noteq> myUserId st) newStrokes;
          st1 =
            (case activeStroke st of
               None \<Rightarrow> st\<lparr>strokes := others @ ourCommittedStrokes, shapes := newShapes\<rparr>
             | Some a \<Rightarrow>
                 (case find (\<lambda>s. id' s = id' a) newStrokes of
                    None \<Rightarrow> st\<lparr>strokes := others @ ourCommittedStrokes @ [a], shapes := newShapes\<rparr>
                  | Some activeInState \<Rightarrow>
                      st\<lparr>strokes :=
                           (if isPointerDown st \<or> id' a \<in> locallyCommittedStrokes st
                            then others @ ourCommittedStrokes @ [a]
                            else others @ ourCommittedStrokes),
                         shapes := newShapes,
                         activeStroke :=
                           (if \<not> isPointerDown st \<and> id' a \<notin> locallyCommittedStrokes st
                            then Some activeInState else Some a)\<rparr>))
      in redrawAll ck currentRect
           (st1\<lparr>strokes := sortBy (sorter ck) (strokes st1),
               shapes := sortBy (sorter ck) (shapes st1)\<rparr>))"



section \<open>Example values\<close>

text \<open>Concrete points, strokes, logs and a client state, used to evaluate the model.\<close>

text \<open>
  The collation that compares strings character by character. On the identifiers of the
  examples, lower-case letters and digits, it orders as the platform does.
\<close>

definition codeUnits :: "string \<Rightarrow> string" where
  "codeUnits s = s"

definition p1 :: point where "p1 = \<lparr>px = 1, py = 1, pt = 0\<rparr>"
definition p2 :: point where "p2 = \<lparr>px = 2, py = 2, pt = 1\<rparr>"
definition p3 :: point where "p3 = \<lparr>px = 9, py = 9, pt = 2\<rparr>"

definition exampleStroke :: "string \<Rightarrow> string \<Rightarrow> int option \<Rightarrow> point list \<Rightarrow> wire_op" where
  "exampleStroke i u ts ps =
     \<lparr>id' = i, userId = u, optype = Stroke, mode = Draw, color = ''#000'', width = 2,
      points = ps, isDeleted = False, timestamp = ts, serverTimestamp = None\<rparr>"




definition lateLog :: drawing_state where
  "lateLog = appendOp codeUnits 9 9 (exampleStroke ''s1'' ''u1'' (Some 100) [p1])
               (appendOp codeUnits 8 8 (exampleStroke ''s2'' ''u2'' (Some 200) [p2])
                  createDrawingState)"

text \<open>
  A client that has committed the stroke \<open>s1\<close> with the points \<open>[p1, p2]\<close> on a canvas
  of 800 by 600 pixels, with what \<^verbatim>\<open>endStroke\<close> stores for it.
\<close>

definition exampleClient :: client_state where
  "exampleClient =
     \<lparr>strokes = [exampleStroke ''s1'' ''u1'' (Some 100) [p1, p2]], shapes = [],
      activeStroke = None, isPointerDown = False, needsRedraw = False,
      locallyCommittedStrokes = {''s1''},
      committedStrokeCoordinates = [''s1'' \<mapsto> [p1, p2]],
      committedStrokeCanvasSize = [''s1'' \<mapsto> (800, 600)],
      committedStrokeNormalizedCoordinates =
        [''s1'' \<mapsto> [\<lparr>px = 1 / 800, py = 1 / 600, pt = 0\<rparr>, \<lparr>px = 2 / 800, py = 2 / 600, pt = 1\<rparr>]],
      myUserId = ''u1''\<rparr>"

section \<open>The sort, related to the library's\<close>

lemma compareOps_le_iff: "compareOps ck a b \<le> 0 \<longleftrightarrow> opKey ck a \<le> opKey ck b"
  by (auto simp: compareOps_def opKey_def localeCompare_def)

lemma insertBy_compareOps: "insertBy (compareOps ck) a xs = insort_key (opKey ck) a xs"
  by (induction xs) (simp_all add: compareOps_le_iff)

lemma sortBy_compareOps: "sortBy (compareOps ck) xs = sort_key (opKey ck) xs"
  by (induction xs) (simp_all add: sortBy_def insertBy_compareOps)

lemma mset_sortBy_compareOps: "mset (sortBy (compareOps ck) xs) = mset xs"
  by (simp add: sortBy_compareOps)

lemma mset_ops_appendOp:
  "mset (ops (appendOp ck now1 now2 w st)) = add_mset (strokeWithTimestamp now1 now2 w) (mset (ops st))"
  by (simp add: appendOp_def mset_sortBy_compareOps)

lemmas eval_defs = exampleStroke_def appendOp_def strokeWithTimestamp_def orElse_def sortBy_def
  compareOps_def localeCompare_def createDrawingState_def globalUndo_def globalRedo_def
  patchPoints_def clear_def loadOps_def toWire_def Let_def p1_def p2_def p3_def codeUnits_def

section \<open>Lists updated in place\<close>

lemma map_updateFirst_invariant:
  "(\<And>a. g (f a) = g a) \<Longrightarrow> map g (updateFirst p f xs) = map g xs"
  by (induction xs) simp_all

lemma length_updateFirst [simp]: "length (updateFirst p f xs) = length xs"
  by (induction xs) simp_all

lemma map_list_update_same:
  "g b = g (xs ! k) \<Longrightarrow> map g (xs[k := b]) = map g xs"
  by (simp add: map_update list_update_same_conv) (metis list_update_beyond list_update_id map_update not_le_imp_less nth_map length_map)

lemma undoLoop_Some_iff:
  "undoLoop n os = Some k \<longleftrightarrow> k < n \<and> \<not> isDeleted (os ! k) \<and> (\<forall>j. k < j \<and> j < n \<longrightarrow> isDeleted (os ! j))"
proof (induction n)
  case 0
  then show ?case by simp
next
  case (Suc n)
  show ?case
  proof (cases "isDeleted (os ! n)")
    case True
    then show ?thesis using Suc
      by (auto simp: less_Suc_eq)
  next
    case False
    then show ?thesis
      by (auto simp: less_Suc_eq)
  qed
qed

lemma undoLoop_None_iff:
  "undoLoop n os = None \<longleftrightarrow> (\<forall>j < n. isDeleted (os ! j))"
  by (induction n) (auto simp: less_Suc_eq)

lemma updateFirst_none: "(\<And>a. a \<in> set xs \<Longrightarrow> \<not> p a) \<Longrightarrow> updateFirst p f xs = xs"
  by (induction xs) simp_all

lemma updateFirst_at:
  "k < length xs \<Longrightarrow> p (xs ! k) \<Longrightarrow> (\<And>j. j < k \<Longrightarrow> \<not> p (xs ! j)) \<Longrightarrow>
   updateFirst p f xs = xs[k := f (xs ! k)]"
proof (induction xs arbitrary: k)
  case Nil
  then show ?case by simp
next
  case (Cons a xs)
  show ?case
  proof (cases k)
    case 0
    then show ?thesis using Cons.prems by simp
  next
    case (Suc m)
    have "\<not> p a" using Cons.prems(3)[of 0] Suc by simp
    moreover have "\<not> p (xs ! j)" if "j < m" for j
      using Cons.prems(3)[of "Suc j"] Suc that by simp
    then have "updateFirst p f xs = xs[m := f (xs ! m)]"
      using Cons.prems(1,2) Suc by (intro Cons.IH) auto
    ultimately show ?thesis using Suc by simp
  qed
qed

lemma sorted_ops_appendOp: "sorted (map (opKey ck) (ops (appendOp ck now1 now2 w st)))"
  by (simp add: appendOp_def sortBy_compareOps)

lemma opKey_ops_patchPoints: "map (opKey ck) (ops (patchPoints i pts st)) = map (opKey ck) (ops st)"
  by (simp add: patchPoints_def map_updateFirst_invariant opKey_def)

lemma opKey_ops_globalUndo: "map (opKey ck) (ops (globalUndo st)) = map (opKey ck) (ops st)"
  by (simp add: globalUndo_def map_list_update_same opKey_def split: option.splits)

lemma opKey_ops_globalRedo: "map (opKey ck) (ops (globalRedo st)) = map (opKey ck) (ops st)"
  by (simp add: globalRedo_def Let_def map_updateFirst_invariant opKey_def)

lemma reachable_sorted: "reachable ck st \<Longrightarrow> sorted (map (opKey ck) (ops st))"
  by (induction rule: reachable.induct)
     (simp_all add: createDrawingState_def sorted_ops_appendOp opKey_ops_patchPoints
        opKey_ops_globalUndo opKey_ops_globalRedo clear_def)

lemma ids_ops_patchPoints: "map id' (ops (patchPoints i pts st)) = map id' (ops st)"
  by (simp add: patchPoints_def map_updateFirst_invariant)

lemma ids_ops_globalUndo: "map id' (ops (globalUndo st)) = map id' (ops st)"
  by (simp add: globalUndo_def map_list_update_same split: option.splits)

lemma ids_ops_globalRedo: "map id' (ops (globalRedo st)) = map id' (ops st)"
  by (simp add: globalRedo_def Let_def map_updateFirst_invariant)

lemma reachable_redo_ids: "reachable ck st \<Longrightarrow> set (redoStack st) \<subseteq> set (map id' (ops st))"
proof (induction rule: reachable.induct)
  case r_init
  then show ?case by (simp add: createDrawingState_def)
next
  case (r_append st now1 now2 w)
  then show ?case by (simp add: appendOp_def)
next
  case (r_patch st i pts)
  then show ?case by (simp only: ids_ops_patchPoints) (simp add: patchPoints_def)
next
  case (r_undo st)
  show ?case
  proof (cases "undoLoop (length (ops st)) (ops st)")
    case None
    then show ?thesis using r_undo by (simp add: globalUndo_def)
  next
    case (Some k)
    then have "k < length (ops st)" by (simp add: undoLoop_Some_iff)
    then have "id' (ops st ! k) \<in> set (map id' (ops st))" by (metis length_map nth_map nth_mem)
    moreover have "redoStack (globalUndo st) = redoStack st @ [id' (ops st ! k)]"
      using Some by (simp add: globalUndo_def)
    ultimately show ?thesis using r_undo.IH by (simp only: ids_ops_globalUndo) auto
  qed
next
  case (r_redo st)
  have "set (redoStack (globalRedo st)) \<subseteq> set (redoStack st)"
    by (auto simp: globalRedo_def Let_def dest: in_set_butlastD)
  then show ?case using r_redo.IH unfolding ids_ops_globalRedo by blast
next
  case (r_clear st)
  then show ?case by (simp add: clear_def)
qed

section \<open>The example logs\<close>


lemma reachable_lateLog: "reachable codeUnits lateLog"
  unfolding lateLog_def by (intro reachable.intros)


lemma ops_lateLog:
  "ops lateLog =
     [strokeWithTimestamp 9 9 (exampleStroke ''s1'' ''u1'' (Some 100) [p1]),
      strokeWithTimestamp 8 8 (exampleStroke ''s2'' ''u2'' (Some 200) [p2])]"
  by (simp add: lateLog_def appendOp_def sortBy_def compareOps_def localeCompare_def
      strokeWithTimestamp_def exampleStroke_def orElse_def createDrawingState_def codeUnits_def)

section \<open>The total order\<close>







lemma sorted_map_nth_le:
  "sorted (map f xs) \<Longrightarrow> i < j \<Longrightarrow> j < length xs \<Longrightarrow> f (xs ! i) \<le> f (xs ! j)"
  by (metis (no_types, lifting) length_map less_imp_le_nat nth_map order_less_trans sorted_iff_nth_mono)

lemma reachable_compare_le:
  "reachable ck st \<Longrightarrow> i < j \<Longrightarrow> j < length (ops st) \<Longrightarrow>
   compareOps ck (ops st ! i) (ops st ! j) \<le> 0"
  by (simp add: compareOps_le_iff sorted_map_nth_le reachable_sorted)




text \<open>
  Two logs that hold the same operations have the same array as soon as no two of the
  operations share the three components of the key.
\<close>

lemma sorted_key_unique:
  assumes "mset xs = mset ys" "inj_on f (set xs)" "sorted (map f xs)" "sorted (map f ys)"
  shows "xs = ys"
proof -
  have "sort_key f xs = ys" using assms(1,2,4) by (rule sort_key_inj_key_eq)
  moreover have "sort_key f xs = xs" using assms(2,3) by (intro sort_key_inj_key_eq) simp_all
  ultimately show ?thesis by simp
qed

lemma same_set_same_order:
  "reachable ck s1 \<Longrightarrow> reachable ck s2 \<Longrightarrow> mset (ops s1) = mset (ops s2) \<Longrightarrow>
   inj_on (opKey ck) (set (ops s1)) \<Longrightarrow> ops s1 = ops s2"
  by (intro sorted_key_unique[where f = "opKey ck"]) (simp_all add: reachable_sorted)

text \<open>
  Claim C2. The order is meant to be a function of the set of operations alone. Two
  strokes of one user with the same \<^verbatim>\<open>timestamp\<close>, received at the same clock reading,
  compare equal, and the stable sort leaves them in the order of their arrival: the two
  logs below hold the same operations and list them in opposite orders.
\<close>

theorem order_depends_on_arrival:
  "mset (ops (appendOp codeUnits 7 7 (exampleStroke ''b'' ''u1'' (Some 5) [p2])
            (appendOp codeUnits 7 7 (exampleStroke ''a'' ''u1'' (Some 5) [p1]) createDrawingState)))
   = mset (ops (appendOp codeUnits 7 7 (exampleStroke ''a'' ''u1'' (Some 5) [p1])
            (appendOp codeUnits 7 7 (exampleStroke ''b'' ''u1'' (Some 5) [p2]) createDrawingState)))
   \<and> map id' (ops (appendOp codeUnits 7 7 (exampleStroke ''b'' ''u1'' (Some 5) [p2])
            (appendOp codeUnits 7 7 (exampleStroke ''a'' ''u1'' (Some 5) [p1]) createDrawingState))) = [''a'', ''b'']
   \<and> map id' (ops (appendOp codeUnits 7 7 (exampleStroke ''a'' ''u1'' (Some 5) [p1])
            (appendOp codeUnits 7 7 (exampleStroke ''b'' ''u1'' (Some 5) [p2]) createDrawingState))) = [''b'', ''a'']"
  by (simp add: eval_defs)

section \<open>Append\<close>

text \<open>
  Claim C4, as the code has it. \<^verbatim>\<open>appendOp ck\<close> never looks an identifier up and never rejects:
  every append makes the log one operation longer, and the identifiers of the log,
  counted with their multiplicity, gain the identifier of the input, also when it is
  already there. \<^verbatim>\<open>patchPoints\<close>, \<^verbatim>\<open>globalUndo\<close> and \<^verbatim>\<open>globalRedo\<close> leave the identifiers as
  they are.
\<close>

theorem appendOp_keeps_duplicate_id:
  "mset (map id' (ops (appendOp ck now1 now2 w st))) = add_mset (id' w) (mset (map id' (ops st)))
   \<and> length (ops (appendOp ck now1 now2 w st)) = Suc (length (ops st))
   \<and> map id' (ops (patchPoints i pts st)) = map id' (ops st)
   \<and> map id' (ops (globalUndo st)) = map id' (ops st)
   \<and> map id' (ops (globalRedo st)) = map id' (ops st)"
proof -
  have "mset (map id' (ops (appendOp ck now1 now2 w st))) = image_mset id' (mset (ops (appendOp ck now1 now2 w st)))"
    by simp
  also have "\<dots> = add_mset (id' w) (mset (map id' (ops st)))"
    by (simp only: mset_ops_appendOp) (simp add: strokeWithTimestamp_def)
  finally have a: "mset (map id' (ops (appendOp ck now1 now2 w st))) = add_mset (id' w) (mset (map id' (ops st)))" .
  have "size (mset (ops (appendOp ck now1 now2 w st))) = Suc (size (mset (ops st)))"
    by (simp only: mset_ops_appendOp) simp
  then have b: "length (ops (appendOp ck now1 now2 w st)) = Suc (length (ops st))" by simp
  show ?thesis using a b ids_ops_patchPoints ids_ops_globalUndo ids_ops_globalRedo by blast
qed

text \<open>
  Appending the same stroke twice stores its identifier twice.
\<close>

theorem appendOp_duplicate_counterexample:
  "\<not> distinct (map id' (ops (appendOp codeUnits 2 2 (exampleStroke ''s1'' ''u1'' (Some 1) [p1])
        (appendOp codeUnits 1 1 (exampleStroke ''s1'' ''u1'' (Some 1) [p1]) createDrawingState))))"
  by (simp add: eval_defs)

lemma ops_loadOps_aux:
  "mset (ops (fold (\<lambda>(now1, now2, w). appendOp ck now1 now2 w) recs st)) =
   mset (map (\<lambda>(now1, now2, w). strokeWithTimestamp now1 now2 w) recs) + mset (ops st)"
proof (induction recs arbitrary: st)
  case Nil
  then show ?case by simp
next
  case (Cons r recs)
  obtain n1 n2 w where r: "r = (n1, n2, w)" by (cases r)
  show ?case by (simp add: Cons.IH r mset_ops_appendOp)
qed

lemma mset_ops_loadOps:
  "mset (ops (loadOps ck recs st)) = mset (map (\<lambda>(now1, now2, w). strokeWithTimestamp now1 now2 w) recs)"
  by (simp add: loadOps_def ops_loadOps_aux clear_def)



lemma map_serverTimestamp_eq: "map (opKey ck) xs = map (opKey ck) ys \<Longrightarrow> map serverTimestamp xs = map serverTimestamp ys"
proof -
  assume "map (opKey ck) xs = map (opKey ck) ys"
  then have "map ((\<lambda>k. fst (snd k)) \<circ> opKey ck) xs = map ((\<lambda>k. fst (snd k)) \<circ> opKey ck) ys"
    by (metis map_map)
  then show ?thesis by (simp add: opKey_def comp_def)
qed

text \<open>
  Claim C9, as the code has it. \<^verbatim>\<open>appendOp ck\<close> stores the clock reading as \<^verbatim>\<open>serverTimestamp\<close>
  whatever the input carries; an append adds the new operation and leaves the stored
  ones as they are; \<^verbatim>\<open>patchPoints\<close>, \<^verbatim>\<open>globalUndo\<close> and \<^verbatim>\<open>globalRedo\<close> change no
  \<^verbatim>\<open>serverTimestamp\<close>; after a load the values of \<^verbatim>\<open>serverTimestamp\<close> in the log are the
  clock readings of the load, one for each record.
\<close>

theorem serverTimestamp_assignment:
  "serverTimestamp (strokeWithTimestamp now1 now2 w) = now1
   \<and> mset (ops (appendOp ck now1 now2 w st)) = add_mset (strokeWithTimestamp now1 now2 w) (mset (ops st))
   \<and> map serverTimestamp (ops (patchPoints i pts st)) = map serverTimestamp (ops st)
   \<and> map serverTimestamp (ops (globalUndo st)) = map serverTimestamp (ops st)
   \<and> map serverTimestamp (ops (globalRedo st)) = map serverTimestamp (ops st)
   \<and> mset (map serverTimestamp (ops (loadOps ck recs st))) = mset (map fst recs)"
proof -
  have a: "serverTimestamp (strokeWithTimestamp now1 now2 w) = now1"
    by (simp add: strokeWithTimestamp_def)
  have "mset (map serverTimestamp (ops (loadOps ck recs st))) = image_mset serverTimestamp (mset (ops (loadOps ck recs st)))"
    by simp
  also have "\<dots> = mset (map fst recs)"
    by (simp only: mset_ops_loadOps)
      (simp add: multiset.map_comp comp_def case_prod_unfold strokeWithTimestamp_def)
  finally have f: "mset (map serverTimestamp (ops (loadOps ck recs st))) = mset (map fst recs)" .
  show ?thesis
    using a f mset_ops_appendOp map_serverTimestamp_eq[OF opKey_ops_patchPoints]
      map_serverTimestamp_eq[OF opKey_ops_globalUndo] map_serverTimestamp_eq[OF opKey_ops_globalRedo]
    by blast
qed

text \<open>
  A stroke received at time 100, saved and loaded at time 200, has the \<^verbatim>\<open>serverTimestamp\<close>
  200 although its record carried 100.
\<close>

theorem serverTimestamp_reassigned_counterexample:
  "map serverTimestamp (ops (appendOp codeUnits 100 100 (exampleStroke ''s1'' ''u1'' (Some 1) [p1]) createDrawingState)) = [100]
   \<and> map serverTimestamp
        (ops (loadOps codeUnits
           (map (\<lambda>a. (200, 200, toWire a))
              (ops (appendOp codeUnits 100 100 (exampleStroke ''s1'' ''u1'' (Some 1) [p1]) createDrawingState)))
           (appendOp codeUnits 100 100 (exampleStroke ''s1'' ''u1'' (Some 1) [p1]) createDrawingState))) = [200]"
  by (simp add: eval_defs)


section \<open>Patch\<close>

text \<open>
  Claim C8, as the code has it. \<^verbatim>\<open>patchPoints\<close> changes nothing when no operation has the
  identifier; otherwise it replaces the points of the first operation with this
  identifier by the sequence it is given, whatever the points were and whether or not
  the stroke was ended (the log has no such state).
\<close>

theorem patchPoints_replaces:
  "((\<forall>a \<in> set (ops st). id' a \<noteq> i) \<longrightarrow> patchPoints i pts st = st)
   \<and> (k < length (ops st) \<and> id' (ops st ! k) = i \<and> (\<forall>j < k. id' (ops st ! j) \<noteq> i) \<longrightarrow>
        patchPoints i pts st = st\<lparr>ops := (ops st)[k := (ops st ! k)\<lparr>points := pts\<rparr>]\<rparr>
        \<and> points (ops (patchPoints i pts st) ! k) = pts)"
proof -
  have a: "patchPoints i pts st = st" if "\<forall>a \<in> set (ops st). id' a \<noteq> i"
    using that by (simp add: patchPoints_def updateFirst_none)
  have b: "patchPoints i pts st = st\<lparr>ops := (ops st)[k := (ops st ! k)\<lparr>points := pts\<rparr>]\<rparr>"
    if "k < length (ops st)" "id' (ops st ! k) = i" "\<forall>j < k. id' (ops st ! j) \<noteq> i"
    using that by (simp add: patchPoints_def updateFirst_at[where k = k])
  have c: "points (ops (patchPoints i pts st) ! k) = pts"
    if "k < length (ops st)" "id' (ops st ! k) = i" "\<forall>j < k. id' (ops st ! j) \<noteq> i"
    using that b by simp
  show ?thesis using a b c by blast
qed

text \<open>
  The theorem at the log \<open>lateLog\<close>, for an identifier it holds and one it does not.
\<close>

theorem patchPoints_replaces_witness:
  "(0::nat) < length (ops lateLog) \<and> id' (ops lateLog ! 0) = ''s1''
   \<and> points (ops (patchPoints ''s1'' [p3] lateLog) ! 0) = [p3]
   \<and> ''s9'' \<notin> set (map id' (ops lateLog))
   \<and> patchPoints ''s9'' [p3] lateLog = lateLog"
proof -
  have h: "(0::nat) < length (ops lateLog) \<and> id' (ops lateLog ! 0) = ''s1''
     \<and> (\<forall>j < (0::nat). id' (ops lateLog ! j) \<noteq> ''s1'')
     \<and> (\<forall>a \<in> set (ops lateLog). id' a \<noteq> ''s9'')
     \<and> ''s9'' \<notin> set (map id' (ops lateLog))"
    by (simp add: ops_lateLog strokeWithTimestamp_def exampleStroke_def)
  show ?thesis
    using patchPoints_replaces[of lateLog "''s1''" "[p3]" 0]
      patchPoints_replaces[of lateLog "''s9''" "[p3]" 0] h by blast
qed

text \<open>
  A patch with one point, applied to a stroke of two other points, leaves the one point.
\<close>

theorem patchPoints_shrinks_counterexample:
  "\<not> prefix
       (points (ops (appendOp codeUnits 1 1 (exampleStroke ''s1'' ''u1'' (Some 1) [p1, p2]) createDrawingState) ! 0))
       (points (ops (patchPoints ''s1'' [p3]
           (appendOp codeUnits 1 1 (exampleStroke ''s1'' ''u1'' (Some 1) [p1, p2]) createDrawingState)) ! 0))"
  by (simp add: eval_defs)

section \<open>Undo and redo\<close>

text \<open>
  Claim C5. In a state of a log that holds an operation that is not deleted,
  \<^verbatim>\<open>globalUndo\<close> marks one operation as deleted and pushes its identifier: the operation
  at the greatest index among those not deleted, which no operation that is not deleted
  follows in the total order. When every operation is deleted, or there is none,
  \<^verbatim>\<open>globalUndo\<close> leaves the state as it is.
\<close>

theorem globalUndo_last_visible:
  assumes "reachable ck st"
  shows "((\<exists>a \<in> set (ops st). \<not> isDeleted a) \<longrightarrow>
           (\<exists>k < length (ops st). \<not> isDeleted (ops st ! k)
              \<and> (\<forall>j < length (ops st). \<not> isDeleted (ops st ! j) \<longrightarrow>
                    j \<le> k \<and> compareOps ck (ops st ! j) (ops st ! k) \<le> 0)
              \<and> globalUndo st =
                  \<lparr>ops = (ops st)[k := (ops st ! k)\<lparr>isDeleted := True\<rparr>],
                   redoStack = redoStack st @ [id' (ops st ! k)]\<rparr>))
       \<and> ((\<forall>a \<in> set (ops st). isDeleted a) \<longrightarrow> globalUndo st = st)"
proof (intro conjI impI)
  assume "\<exists>a \<in> set (ops st). \<not> isDeleted a"
  then have "undoLoop (length (ops st)) (ops st) \<noteq> None"
    by (auto simp: undoLoop_None_iff in_set_conv_nth)
  then obtain k where k: "undoLoop (length (ops st)) (ops st) = Some k" by blast
  then have kl: "k < length (ops st)" and kv: "\<not> isDeleted (ops st ! k)"
    and after: "\<And>j. k < j \<Longrightarrow> j < length (ops st) \<Longrightarrow> isDeleted (ops st ! j)"
    by (simp_all add: undoLoop_Some_iff)
  have last: "j \<le> k \<and> compareOps ck (ops st ! j) (ops st ! k) \<le> 0"
    if "j < length (ops st)" "\<not> isDeleted (ops st ! j)" for j
  proof -
    have jk: "j \<le> k" using after that by (meson not_le_imp_less)
    show ?thesis
    proof (cases "j = k")
      case True
      then show ?thesis by (simp add: compareOps_le_iff)
    next
      case False
      then have "j < k" using jk by simp
      then show ?thesis using reachable_compare_le[OF assms _ kl] jk by simp
    qed
  qed
  have "globalUndo st =
          \<lparr>ops = (ops st)[k := (ops st ! k)\<lparr>isDeleted := True\<rparr>],
           redoStack = redoStack st @ [id' (ops st ! k)]\<rparr>"
    using k by (simp add: globalUndo_def)
  then show "\<exists>k < length (ops st). \<not> isDeleted (ops st ! k)
              \<and> (\<forall>j < length (ops st). \<not> isDeleted (ops st ! j) \<longrightarrow>
                    j \<le> k \<and> compareOps ck (ops st ! j) (ops st ! k) \<le> 0)
              \<and> globalUndo st =
                  \<lparr>ops = (ops st)[k := (ops st ! k)\<lparr>isDeleted := True\<rparr>],
                   redoStack = redoStack st @ [id' (ops st ! k)]\<rparr>"
    using kl kv last by blast
next
  assume "\<forall>a \<in> set (ops st). isDeleted a"
  then have "undoLoop (length (ops st)) (ops st) = None"
    by (simp add: undoLoop_None_iff)
  then show "globalUndo st = st" by (simp add: globalUndo_def)
qed

text \<open>
  The theorem at \<open>lateLog\<close>, and at the same log after two undos, when all is deleted.
\<close>

theorem globalUndo_last_visible_witness:
  "reachable codeUnits lateLog \<and> (\<exists>a \<in> set (ops lateLog). \<not> isDeleted a)
   \<and> (\<exists>k < length (ops lateLog). \<not> isDeleted (ops lateLog ! k)
        \<and> (\<forall>j < length (ops lateLog). \<not> isDeleted (ops lateLog ! j) \<longrightarrow>
              j \<le> k \<and> compareOps codeUnits (ops lateLog ! j) (ops lateLog ! k) \<le> 0)
        \<and> globalUndo lateLog =
            \<lparr>ops = (ops lateLog)[k := (ops lateLog ! k)\<lparr>isDeleted := True\<rparr>],
             redoStack = redoStack lateLog @ [id' (ops lateLog ! k)]\<rparr>)
   \<and> reachable codeUnits (globalUndo (globalUndo lateLog))
   \<and> map isDeleted (ops (globalUndo (globalUndo lateLog))) = [True, True]
   \<and> globalUndo (globalUndo (globalUndo lateLog)) = globalUndo (globalUndo lateLog)"
proof -
  have v: "\<exists>a \<in> set (ops lateLog). \<not> isDeleted a"
    by (simp add: ops_lateLog strokeWithTimestamp_def)
  have r2: "reachable codeUnits (globalUndo (globalUndo lateLog))"
    by (intro reachable.intros reachable_lateLog)
  have m: "map isDeleted (ops (globalUndo (globalUndo lateLog))) = [True, True]"
    by (simp add: globalUndo_def ops_lateLog strokeWithTimestamp_def)
  have d: "\<forall>a \<in> set (ops (globalUndo (globalUndo lateLog))). isDeleted a"
    by (simp add: globalUndo_def ops_lateLog strokeWithTimestamp_def)
  show ?thesis
    using globalUndo_last_visible[OF reachable_lateLog] globalUndo_last_visible[OF r2]
      reachable_lateLog v r2 m d by blast
qed

lemma updateFirst_distinct_id:
  assumes "distinct (map id' xs)" "k < length xs"
  shows "updateFirst (\<lambda>a. id' a = id' (xs ! k)) f xs = xs[k := f (xs ! k)]"
proof (rule updateFirst_at)
  show "k < length xs" by fact
  show "id' (xs ! k) = id' (xs ! k)" by simp
  fix j assume jk: "j < k"
  then have "j < length (map id' xs)" "k < length (map id' xs)" "j \<noteq> k"
    using assms(2) by simp_all
  then have "map id' xs ! j \<noteq> map id' xs ! k"
    using assms(1) unfolding distinct_conv_nth by blast
  then show "id' (xs ! j) \<noteq> id' (xs ! k)" using assms(2) jk by simp
qed

text \<open>
  Claim C6, as amended. In a log whose identifiers are pairwise distinct and not empty
  and which holds an operation that is not deleted, \<^verbatim>\<open>globalUndo\<close> followed by
  \<^verbatim>\<open>globalRedo\<close> gives back the state it started from: the operations, their flags and
  their order, and the redo stack.
\<close>

theorem undo_redo_roundtrip:
  assumes "distinct (map id' (ops st))" and "[] \<notin> set (map id' (ops st))"
    and "\<exists>a \<in> set (ops st). \<not> isDeleted a"
  shows "globalRedo (globalUndo st) = st"
proof -
  from assms(3) have "undoLoop (length (ops st)) (ops st) \<noteq> None"
    by (auto simp: undoLoop_None_iff in_set_conv_nth)
  then obtain k where k: "undoLoop (length (ops st)) (ops st) = Some k" by blast
  then have kl: "k < length (ops st)" and kv: "\<not> isDeleted (ops st ! k)"
    by (simp_all add: undoLoop_Some_iff)
  define os where "os = (ops st)[k := (ops st ! k)\<lparr>isDeleted := True\<rparr>]"
  have u: "globalUndo st = \<lparr>ops = os, redoStack = redoStack st @ [id' (ops st ! k)]\<rparr>"
    using k by (simp add: globalUndo_def os_def)
  have ne: "id' (ops st ! k) \<noteq> []"
    using assms(2) kl by (metis length_map nth_map nth_mem)
  have ids: "map id' os = map id' (ops st)"
    by (simp add: os_def map_list_update_same)
  have osk: "os ! k = (ops st ! k)\<lparr>isDeleted := True\<rparr>" and len: "k < length os"
    using kl by (simp_all add: os_def)
  have "updateFirst (\<lambda>a. id' a = id' (os ! k)) (\<lambda>a. a\<lparr>isDeleted := False\<rparr>) os
          = os[k := (os ! k)\<lparr>isDeleted := False\<rparr>]"
    using assms(1) len by (intro updateFirst_distinct_id) (simp add: ids)
  also have "(os ! k)\<lparr>isDeleted := False\<rparr> = ops st ! k"
    using kv by (simp add: osk)
  also have "os[k := ops st ! k] = ops st"
    by (simp add: os_def)
  finally have "updateFirst (\<lambda>a. id' a = id' (ops st ! k)) (\<lambda>a. a\<lparr>isDeleted := False\<rparr>) os = ops st"
    by (simp add: osk)
  then show ?thesis using ne by (simp add: u globalRedo_def)
qed

text \<open>
  The theorem at \<open>lateLog\<close>.
\<close>

theorem undo_redo_roundtrip_witness:
  "distinct (map id' (ops lateLog)) \<and> [] \<notin> set (map id' (ops lateLog))
   \<and> (\<exists>a \<in> set (ops lateLog). \<not> isDeleted a)
   \<and> globalRedo (globalUndo lateLog) = lateLog"
proof -
  have h: "distinct (map id' (ops lateLog))" "[] \<notin> set (map id' (ops lateLog))"
    "\<exists>a \<in> set (ops lateLog). \<not> isDeleted a"
    by (simp_all add: ops_lateLog strokeWithTimestamp_def exampleStroke_def)
  show ?thesis using undo_redo_roundtrip[OF h] h by blast
qed

text \<open>
  With one identifier stored twice, the first copy deleted, undo deletes the second copy
  and redo restores the first: the visible operations are not those before the undo.
\<close>

theorem undo_redo_counterexample:
  "filter (\<lambda>a. \<not> isDeleted a)
     (ops (globalRedo (globalUndo
        (appendOp codeUnits 20 20 (exampleStroke ''s1'' ''u1'' (Some 2) [p2])
          (globalUndo (appendOp codeUnits 10 10 (exampleStroke ''s1'' ''u1'' (Some 1) [p1]) createDrawingState))))))
   \<noteq> filter (\<lambda>a. \<not> isDeleted a)
     (ops (appendOp codeUnits 20 20 (exampleStroke ''s1'' ''u1'' (Some 2) [p2])
          (globalUndo (appendOp codeUnits 10 10 (exampleStroke ''s1'' ''u1'' (Some 1) [p1]) createDrawingState))))"
  by (simp add: eval_defs)

text \<open>
  Claim C7. Every \<^verbatim>\<open>appendOp ck\<close> empties the redo stack, so \<^verbatim>\<open>globalRedo\<close> after an append
  that follows an undo changes nothing; \<^verbatim>\<open>globalRedo\<close> on an empty redo stack changes
  nothing; on an empty log \<^verbatim>\<open>globalUndo\<close> changes nothing, and neither does \<^verbatim>\<open>globalRedo\<close>
  in any state the log can be in. The functions are total: none of them raises.
\<close>

theorem redo_invalidation:
  "redoStack (appendOp ck now1 now2 w st) = []
   \<and> globalRedo (appendOp ck now1 now2 w (globalUndo st)) = appendOp ck now1 now2 w (globalUndo st)
   \<and> (redoStack st = [] \<longrightarrow> globalRedo st = st)
   \<and> (ops st = [] \<longrightarrow> globalUndo st = st)
   \<and> (reachable ck st \<and> ops st = [] \<longrightarrow> globalRedo st = st)"
proof -
  have a: "redoStack (appendOp ck n1 n2 v s) = []" for n1 n2 v s
    by (simp add: appendOp_def)
  have c: "globalRedo s = s" if "redoStack s = []" for s
    using that by (simp add: globalRedo_def)
  have d: "globalUndo st = st" if "ops st = []"
    using that by (simp add: globalUndo_def)
  have e: "globalRedo st = st" if "reachable ck st" "ops st = []"
  proof -
    have "set (redoStack st) \<subseteq> set (map id' (ops st))" using that(1) by (rule reachable_redo_ids)
    then have "redoStack st = []" using that(2) by simp
    then show ?thesis by (rule c)
  qed
  show ?thesis using a c[OF a] c d e by blast
qed

text \<open>
  The theorem at the fresh log, and at \<open>lateLog\<close> after an undo and an append.
\<close>

theorem redo_invalidation_witness:
  "redoStack createDrawingState = [] \<and> ops createDrawingState = [] \<and> reachable codeUnits createDrawingState
   \<and> globalRedo createDrawingState = createDrawingState
   \<and> globalUndo createDrawingState = createDrawingState
   \<and> globalRedo (appendOp codeUnits 9 9 (exampleStroke ''s3'' ''u1'' (Some 300) [p3]) (globalUndo lateLog))
       = appendOp codeUnits 9 9 (exampleStroke ''s3'' ''u1'' (Some 300) [p3]) (globalUndo lateLog)"
proof -
  have h: "redoStack createDrawingState = [] \<and> ops createDrawingState = []"
    by (simp add: createDrawingState_def)
  show ?thesis
    using redo_invalidation[of codeUnits 9 9 "exampleStroke ''s3'' ''u1'' (Some 300) [p3]" createDrawingState]
      redo_invalidation[of codeUnits 9 9 "exampleStroke ''s3'' ''u1'' (Some 300) [p3]" lateLog]
      h reachable.r_init by blast
qed

section \<open>The client after a clear\<close>

text \<open>
  Claim C3. A clear is to discard every local pin and leave the client with the empty
  snapshot. The server's \<^verbatim>\<open>clear\<close> empties the log and the client receives the empty array
  as a \<^verbatim>\<open>state:replace\<close>; \<^verbatim>\<open>onWholeStateReplaced\<close> merges it like any other snapshot, so the
  client still shows its committed stroke, with its points, and still has it in
  \<^verbatim>\<open>locallyCommittedStrokes\<close>.
\<close>

theorem clear_keeps_committed_strokes:
  "map toWire (ops (clear lateLog)) = []
   \<and> map id' (strokes (onWholeStateReplaced codeUnits (800, 600)
          (map toWire (ops (clear lateLog))) exampleClient)) = [''s1'']
   \<and> map points (strokes (onWholeStateReplaced codeUnits (800, 600)
          (map toWire (ops (clear lateLog))) exampleClient)) = [[p1, p2]]
   \<and> locallyCommittedStrokes (onWholeStateReplaced codeUnits (800, 600)
          (map toWire (ops (clear lateLog))) exampleClient) = {''s1''}"
  by (simp add: onWholeStateReplaced_def exampleClient_def exampleStroke_def isActive_def
      restoreCoordinates_def redrawAll_def redrawOne_def drawStroke_def mismatched_def
      sortBy_def Let_def p1_def p2_def clear_def enumerate_eq_zip)

end
